theory Spec2Isabelle
  imports Complex_Main
begin

section \<open>The event and resource booking application (app.py)\<close>

text \<open>
  The application keeps three MongoDB collections (events, resources, allocations) and
  serves them through Flask views. The embedding follows app.py view by view:
  a collection is the list of its documents in insertion order, a view is a function
  from the request and the database to the new database and the outcome, and an
  exception that escapes a view is an outcome of its own.
\<close>

subsection \<open>Values\<close>

text \<open>
  An \<open>ObjectId\<close> is an opaque key; only equality is used on it. A naive
  \<open>datetime\<close> is the number of microseconds since a fixed origin (Python's
  resolution), so that comparison of datetimes is comparison of integers and the
  difference of two datetimes is the timedelta's total number of microseconds.
\<close>

type_synonym ObjectId = nat
type_synonym datetime = int
type_synonym timedelta = int

text \<open>
  Python normalises a timedelta into days, seconds (0 to 86399) and microseconds
  (0 to 999999), the days carrying the sign. The attribute \<open>seconds\<close> is the middle
  component alone; \<open>total_seconds()\<close> is the whole duration.
\<close>

definition seconds :: "timedelta \<Rightarrow> int" where
  "seconds td = (td div 1000000) mod 86400"

definition total_seconds :: "timedelta \<Rightarrow> rat" where
  "total_seconds td = of_int td / 1000000"

text \<open>A time of day on the origin's date, for the examples: \<open>hhmm h m\<close> is h:m:00.\<close>

definition hhmm :: "int \<Rightarrow> int \<Rightarrow> datetime" where
  "hhmm h m = (h * 3600 + m * 60) * 1000000"

subsection \<open>Documents and collections\<close>

text \<open>
  The documents, with the keys app.py writes: an event has \<open>_id\<close>, \<open>title\<close>,
  \<open>start\<close>, \<open>end\<close> and \<open>description\<close>; a resource has \<open>_id\<close>, \<open>name\<close> and
  \<open>type\<close>; an allocation has \<open>_id\<close>, \<open>event_id\<close> and \<open>resource_id\<close>.
\<close>

record event =
  ev_id :: ObjectId
  ev_title :: string
  ev_start :: datetime
  ev_end :: datetime
  ev_description :: string

record resource =
  res_id :: ObjectId
  res_name :: string
  res_type :: string

record allocation =
  al_id :: ObjectId
  event_id :: ObjectId
  resource_id :: ObjectId

record db =
  events_col :: "event list"
  resources_col :: "resource list"
  allocations_col :: "allocation list"

text \<open>
  \<open>insert_one\<close> appends the document, under the \<open>_id\<close> the driver generated for it
  (an argument of every view that inserts). \<open>find_one({"_id": i})\<close> is the first
  document with that key, or None. \<open>find({"resource_id": r})\<close> is the allocations
  of \<open>r\<close> in insertion order.
\<close>

definition insert_one :: "'a list \<Rightarrow> 'a \<Rightarrow> 'a list" where
  "insert_one col doc = col @ [doc]"

definition find_one_id :: "event list \<Rightarrow> ObjectId \<Rightarrow> event option" where
  "find_one_id evs i = find (\<lambda>ev. ev_id ev = i) evs"

definition find_resource_id :: "allocation list \<Rightarrow> ObjectId \<Rightarrow> allocation list" where
  "find_resource_id als r = filter (\<lambda>a. resource_id a = r) als"

subsection \<open>Requests and outcomes\<close>

text \<open>
  A request is a GET or a POST with its form, the fields already read and parsed
  (\<open>request.form[...]\<close>, \<open>datetime.fromisoformat\<close>, \<open>ObjectId(...)\<close>: all of them
  run before the first write of their view). The session is Flask's dictionary.
  What a view gives back is a redirect, a literal body, or a template with the values
  it is rendered from. Subscripting None, which is what \<open>find_one\<close> returns for an
  unknown key, raises TypeError; no view catches it.
\<close>

datatype 'f request = GET | POST 'f

type_synonym session = "string \<rightharpoonup> string"

datatype error = TypeError

datatype response =
    Redirect string
  | Body string
  | Render_events "event list"
  | Render_resources "resource list"
  | Render_allocate "event list" "resource list"
  | Render_report "(string \<times> rat \<times> nat) list"

type_synonym outcome = "db \<times> (error + response)"

text \<open>The readings of \<open>datetime.now()\<close> during one request, in call order.\<close>

type_synonym clock = "nat \<Rightarrow> datetime"

subsection \<open>The login decorator\<close>

definition login_required :: "session \<Rightarrow> db \<Rightarrow> outcome \<Rightarrow> outcome" where
  "login_required sess d f =
     (if sess ''user'' = None then (d, Inr (Redirect ''/login'')) else f)"

subsection \<open>Events and resources\<close>

definition events_view ::
    "ObjectId \<Rightarrow> (string \<times> datetime \<times> datetime \<times> string) request \<Rightarrow> db \<Rightarrow> outcome" where
  "events_view oid req d =
     (case req of
        GET \<Rightarrow> (d, Inr (Render_events (events_col d)))
      | POST (title, start, end', desc) \<Rightarrow>
          if start \<ge> end' then (d, Inr (Body ''Invalid time range''))
          else
            let d' = d\<lparr>events_col := insert_one (events_col d)
                        \<lparr>ev_id = oid, ev_title = title, ev_start = start,
                         ev_end = end', ev_description = desc\<rparr>\<rparr>
            in (d', Inr (Render_events (events_col d'))))"

definition events ::
    "session \<Rightarrow> ObjectId \<Rightarrow> (string \<times> datetime \<times> datetime \<times> string) request \<Rightarrow> db \<Rightarrow> outcome" where
  "events sess oid req d = login_required sess d (events_view oid req d)"

definition resources_view :: "ObjectId \<Rightarrow> (string \<times> string) request \<Rightarrow> db \<Rightarrow> outcome" where
  "resources_view oid req d =
     (case req of
        GET \<Rightarrow> (d, Inr (Render_resources (resources_col d)))
      | POST (name, type) \<Rightarrow>
          let d' = d\<lparr>resources_col := insert_one (resources_col d)
                      \<lparr>res_id = oid, res_name = name, res_type = type\<rparr>\<rparr>
          in (d', Inr (Render_resources (resources_col d'))))"

definition resources ::
    "session \<Rightarrow> ObjectId \<Rightarrow> (string \<times> string) request \<Rightarrow> db \<Rightarrow> outcome" where
  "resources sess oid req d = login_required sess d (resources_view oid req d)"

subsection \<open>Conflict detection\<close>

text \<open>
  The loop of \<open>has_conflict\<close> over the allocations of the resource: the event of each is
  looked up, a missing one raises, the first overlapping one returns True.
\<close>

fun has_conflict_loop ::
    "event list \<Rightarrow> allocation list \<Rightarrow> datetime \<Rightarrow> datetime \<Rightarrow> error + bool" where
  "has_conflict_loop evs [] start end' = Inr False"
| "has_conflict_loop evs (a # as) start end' =
     (case find_one_id evs (event_id a) of
        None \<Rightarrow> Inl TypeError
      | Some event \<Rightarrow>
          if \<not> (end' \<le> ev_start event \<or> start \<ge> ev_end event) then Inr True
          else has_conflict_loop evs as start end')"

definition has_conflict :: "db \<Rightarrow> ObjectId \<Rightarrow> datetime \<Rightarrow> datetime \<Rightarrow> error + bool" where
  "has_conflict d resource_id' start end' =
     has_conflict_loop (events_col d)
       (find_resource_id (allocations_col d) resource_id') start end'"

subsection \<open>Allocation\<close>

definition allocate_view :: "ObjectId \<Rightarrow> (ObjectId \<times> ObjectId) request \<Rightarrow> db \<Rightarrow> outcome" where
  "allocate_view oid req d =
     (case req of
        GET \<Rightarrow> (d, Inr (Render_allocate (events_col d) (resources_col d)))
      | POST (event_key, resource_key) \<Rightarrow>
          (case find_one_id (events_col d) event_key of
             None \<Rightarrow> (d, Inl TypeError)
           | Some event \<Rightarrow>
               (case has_conflict d resource_key (ev_start event) (ev_end event) of
                  Inl err \<Rightarrow> (d, Inl err)
                | Inr True \<Rightarrow> (d, Inr (Body ''Conflict: Resource already booked''))
                | Inr False \<Rightarrow>
                    (d\<lparr>allocations_col := insert_one (allocations_col d)
                         \<lparr>al_id = oid, event_id = ev_id event, resource_id = resource_key\<rparr>\<rparr>,
                     Inr (Render_allocate (events_col d) (resources_col d))))))"

definition allocate ::
    "session \<Rightarrow> ObjectId \<Rightarrow> (ObjectId \<times> ObjectId) request \<Rightarrow> db \<Rightarrow> outcome" where
  "allocate sess oid req d = login_required sess d (allocate_view oid req d)"

subsection \<open>The utilisation report\<close>

text \<open>
  The inner loop of \<open>report\<close> for one resource. It carries the two counters and the
  number of clock readings taken so far; each allocation whose event is found reads
  the clock once. Python divides the integer \<open>seconds\<close> by 3600 in binary floating
  point; the model keeps the exact quotient.
\<close>

fun report_allocations ::
    "event list \<Rightarrow> clock \<Rightarrow> datetime \<Rightarrow> datetime \<Rightarrow> allocation list \<Rightarrow>
     rat \<Rightarrow> nat \<Rightarrow> nat \<Rightarrow> error + (rat \<times> nat \<times> nat)" where
  "report_allocations evs now start end' [] hours upcoming k = Inr (hours, upcoming, k)"
| "report_allocations evs now start end' (a # as) hours upcoming k =
     (case find_one_id evs (event_id a) of
        None \<Rightarrow> Inl TypeError
      | Some event \<Rightarrow>
          report_allocations evs now start end' as
            (if ev_end event > start \<and> ev_start event < end'
             then hours + of_int (seconds (ev_end event - ev_start event)) / 3600
             else hours)
            (if ev_start event > now k then upcoming + 1 else upcoming)
            (k + 1))"

fun report_resources ::
    "db \<Rightarrow> clock \<Rightarrow> datetime \<Rightarrow> datetime \<Rightarrow> resource list \<Rightarrow>
     (string \<times> rat \<times> nat) list \<Rightarrow> nat \<Rightarrow> error + (string \<times> rat \<times> nat) list" where
  "report_resources d now start end' [] report_data k = Inr report_data"
| "report_resources d now start end' (r # rs) report_data k =
     (case report_allocations (events_col d) now start end'
             (find_resource_id (allocations_col d) (res_id r)) 0 0 k of
        Inl err \<Rightarrow> Inl err
      | Inr (hours, upcoming, k') \<Rightarrow>
          report_resources d now start end' rs
            (report_data @ [(res_name r, hours, upcoming)]) k')"

definition report_view :: "clock \<Rightarrow> (datetime \<times> datetime) request \<Rightarrow> db \<Rightarrow> outcome" where
  "report_view now req d =
     (case req of
        GET \<Rightarrow> (d, Inr (Render_report []))
      | POST (start, end') \<Rightarrow>
          (case report_resources d now start end' (resources_col d) [] 0 of
             Inl err \<Rightarrow> (d, Inl err)
           | Inr report_data \<Rightarrow> (d, Inr (Render_report report_data))))"

definition report ::
    "session \<Rightarrow> clock \<Rightarrow> (datetime \<times> datetime) request \<Rightarrow> db \<Rightarrow> outcome" where
  "report sess now req d = login_required sess d (report_view now req d)"

section \<open>What the properties speak about\<close>

subsection \<open>Overlap, integrity, reachable stores\<close>

text \<open>
  Two allocations clash when both their events are in the store and the intervals of
  the two events overlap: \<open>s1 < e2\<close> and \<open>s2 < e1\<close>. A store has no overlap when no two
  allocations at different positions of the collection, bound to the same resource,
  clash.
\<close>

definition clash :: "event list \<Rightarrow> allocation \<Rightarrow> allocation \<Rightarrow> bool" where
  "clash evs a b =
     (case (find_one_id evs (event_id a), find_one_id evs (event_id b)) of
        (Some e1, Some e2) \<Rightarrow> ev_start e1 < ev_end e2 \<and> ev_start e2 < ev_end e1
      | _ \<Rightarrow> False)"

definition no_overlap :: "db \<Rightarrow> bool" where
  "no_overlap d =
     (let als = allocations_col d in
      \<forall>i\<in>{..<length als}. \<forall>j\<in>{..<length als}.
        i \<noteq> j \<and> resource_id (als ! i) = resource_id (als ! j) \<longrightarrow>
        \<not> clash (events_col d) (als ! i) (als ! j))"

text \<open>
  The events of a resource resolve when every allocation of the resource references an
  event of the store. No view deletes an event and \<open>allocate\<close> only inserts the key of
  an event it has found, so this holds in every store the application builds from the
  empty one (\<open>reachable\<close>, below).
\<close>

definition events_resolve :: "db \<Rightarrow> ObjectId \<Rightarrow> bool" where
  "events_resolve d r =
     (\<forall>a\<in>set (find_resource_id (allocations_col d) r).
        find_one_id (events_col d) (event_id a) \<noteq> None)"

definition binding :: "allocation \<Rightarrow> ObjectId \<times> ObjectId" where
  "binding a = (event_id a, resource_id a)"

inductive reachable :: "db \<Rightarrow> bool" where
  empty: "reachable \<lparr>events_col = [], resources_col = [], allocations_col = []\<rparr>"
| events: "reachable d \<Longrightarrow> reachable (fst (events sess oid req d))"
| resources: "reachable d \<Longrightarrow> reachable (fst (resources sess oid req d))"
| allocate: "reachable d \<Longrightarrow> reachable (fst (allocate sess oid req d))"

subsection \<open>Comparing two reports\<close>

text \<open>
  \<open>without_upcoming\<close> blanks the third column of a rendered report. Two clocks are on
  the same side of every event when no reading of one is before the start of a stored
  event that a reading of the other is not before.
\<close>

definition without_upcoming :: "error + response \<Rightarrow> error + response" where
  "without_upcoming out =
     (case out of
        Inr (Render_report rows) \<Rightarrow>
          Inr (Render_report (map (\<lambda>(name, hours, upcoming). (name, hours, 0)) rows))
      | _ \<Rightarrow> out)"

definition same_side :: "db \<Rightarrow> clock \<Rightarrow> clock \<Rightarrow> bool" where
  "same_side d now1 now2 =
     (\<forall>ev\<in>set (events_col d). \<forall>i j. (ev_start ev > now1 i) = (ev_start ev > now2 j))"

subsection \<open>Example data\<close>

definition alice :: session where
  "alice = [''user'' \<mapsto> ''alice'']"

definition dawn :: clock where
  "dawn k = hhmm 6 0"

definition morning :: clock where
  "morning k = hhmm 9 0"

definition noon :: clock where
  "noon k = hhmm 12 0"

definition standup :: event where
  "standup = \<lparr>ev_id = 1, ev_title = ''standup'', ev_start = hhmm 10 0, ev_end = hhmm 11 0,
              ev_description = ''daily''\<rparr>"

definition review :: event where
  "review = \<lparr>ev_id = 2, ev_title = ''review'', ev_start = hhmm 11 0, ev_end = hhmm 12 0,
             ev_description = ''weekly''\<rparr>"

definition huddle :: event where
  "huddle = \<lparr>ev_id = 3, ev_title = ''huddle'', ev_start = hhmm 10 30, ev_end = hhmm 10 45,
             ev_description = ''short''\<rparr>"

definition offsite :: event where
  "offsite = \<lparr>ev_id = 5, ev_title = ''offsite'', ev_start = hhmm 0 0, ev_end = hhmm 25 0,
              ev_description = ''25 hours''\<rparr>"

definition workshop :: event where
  "workshop = \<lparr>ev_id = 6, ev_title = ''workshop'', ev_start = hhmm 9 0, ev_end = hhmm 10 30,
               ev_description = ''A''\<rparr>"

definition demo :: event where
  "demo = \<lparr>ev_id = 7, ev_title = ''demo'', ev_start = hhmm 14 0, ev_end = hhmm 15 0,
           ev_description = ''B''\<rparr>"

definition room :: resource where
  "room = \<lparr>res_id = 10, res_name = ''room'', res_type = ''space''\<rparr>"

text \<open>
  \<open>db0\<close>: three events, one room, nothing allocated. \<open>db1\<close>: the standup holds the
  room. \<open>db2\<close> and \<open>db3\<close>: an allocation of the room references the event key 99,
  which is not in the store. \<open>db4\<close>: the room is held for 25 hours. \<open>db5\<close>: the
  room is held from 9:00 to 10:30 and from 14:00 to 15:00.
\<close>

definition db0 :: db where
  "db0 = \<lparr>events_col = [standup, review, huddle], resources_col = [room], allocations_col = []\<rparr>"

definition db1 :: db where
  "db1 = db0\<lparr>allocations_col := [\<lparr>al_id = 20, event_id = 1, resource_id = 10\<rparr>]\<rparr>"

definition db2 :: db where
  "db2 = db0\<lparr>allocations_col :=
           [\<lparr>al_id = 20, event_id = 1, resource_id = 10\<rparr>,
            \<lparr>al_id = 22, event_id = 99, resource_id = 10\<rparr>]\<rparr>"

definition db3 :: db where
  "db3 = db0\<lparr>allocations_col := [\<lparr>al_id = 22, event_id = 99, resource_id = 10\<rparr>]\<rparr>"

definition db4 :: db where
  "db4 = \<lparr>events_col = [offsite], resources_col = [room],
          allocations_col = [\<lparr>al_id = 20, event_id = 5, resource_id = 10\<rparr>]\<rparr>"

definition db5 :: db where
  "db5 = \<lparr>events_col = [workshop, demo], resources_col = [room],
          allocations_col = [\<lparr>al_id = 20, event_id = 6, resource_id = 10\<rparr>,
                             \<lparr>al_id = 21, event_id = 7, resource_id = 10\<rparr>]\<rparr>"

section \<open>Lookup and the conflict loop\<close>

lemmas example_defs = alice_def standup_def review_def huddle_def room_def db0_def db1_def
  db2_def db3_def hhmm_def

lemmas allocate_defs = allocate_def allocate_view_def login_required_def has_conflict_def
  find_resource_id_def find_one_id_def insert_one_def

lemma find_one_id_Some:
  "find_one_id evs i = Some ev \<Longrightarrow> ev \<in> set evs \<and> ev_id ev = i"
  unfolding find_one_id_def by (auto simp: find_Some_iff)

lemma find_one_id_own:
  "find_one_id evs i = Some ev \<Longrightarrow> find_one_id evs (ev_id ev) = Some ev"
  using find_one_id_Some by fastforce

lemma find_one_id_snoc:
  "find_one_id evs i = Some ev \<Longrightarrow> find_one_id (evs @ [x]) i = Some ev"
  unfolding find_one_id_def by (induction evs) (auto split: if_splits)

text \<open>The loop answers False exactly when every allocation resolves and none overlaps.\<close>

lemma has_conflict_loop_False_iff:
  "has_conflict_loop evs as s e = Inr False \<longleftrightarrow>
     (\<forall>a\<in>set as. \<exists>ev. find_one_id evs (event_id a) = Some ev \<and>
                        \<not> (s < ev_end ev \<and> ev_start ev < e))"
  by (induction as) (auto split: option.splits)

lemma has_conflict_loop_True_imp:
  "has_conflict_loop evs as s e = Inr True \<Longrightarrow>
     \<exists>a\<in>set as. \<exists>ev. find_one_id evs (event_id a) = Some ev \<and>
                        s < ev_end ev \<and> ev_start ev < e"
  by (induction as) (auto split: option.splits if_splits)

lemma has_conflict_loop_resolved:
  "\<forall>a\<in>set as. find_one_id evs (event_id a) \<noteq> None \<Longrightarrow>
   has_conflict_loop evs as s e =
     Inr (\<exists>a\<in>set as. \<exists>ev. find_one_id evs (event_id a) = Some ev \<and>
                          s < ev_end ev \<and> ev_start ev < e)"
  by (induction as) (auto split: option.splits)

text \<open>
  The loop raises exactly when it reaches an allocation without event, all the
  allocations before it resolving to events that do not overlap.
\<close>

lemma has_conflict_loop_error_iff:
  "has_conflict_loop evs as s e = Inl err \<longleftrightarrow>
     (\<exists>pre a post. as = pre @ a # post \<and> find_one_id evs (event_id a) = None \<and>
        (\<forall>b\<in>set pre. \<exists>ev. find_one_id evs (event_id b) = Some ev \<and>
                           \<not> (s < ev_end ev \<and> ev_start ev < e)))"
proof (induction as)
  case Nil
  then show ?case by simp
next
  case (Cons a as)
  let ?ok = "\<lambda>b. \<exists>ev. find_one_id evs (event_id b) = Some ev \<and>
                      \<not> (s < ev_end ev \<and> ev_start ev < e)"
  let ?R = "\<lambda>xs. \<exists>pre a post. xs = pre @ a # post \<and>
                 find_one_id evs (event_id a) = None \<and> (\<forall>b\<in>set pre. ?ok b)"
  show ?case
  proof (cases "find_one_id evs (event_id a)")
    case None
    have "a # as = [] @ a # as" by simp
    with None show ?thesis by (cases err) force
  next
    case (Some ev)
    show ?thesis
    proof (cases "s < ev_end ev \<and> ev_start ev < e")
      case True
      with Some show ?thesis
        by (auto simp: Cons_eq_append_conv)
    next
      case False
      from Some False have step:
        "has_conflict_loop evs (a # as) s e = has_conflict_loop evs as s e"
        by auto
      from Some False have oka: "?ok a" by simp
      have "?R (a # as) \<longleftrightarrow> ?R as"
      proof
        assume "?R (a # as)"
        then obtain pre b post where
          eq: "a # as = pre @ b # post" and nb: "find_one_id evs (event_id b) = None"
          and okp: "\<forall>c\<in>set pre. ?ok c" by blast
        from eq nb Some obtain pre' where pre: "pre = a # pre'"
          by (cases pre) auto
        with eq have "as = pre' @ b # post" by simp
        moreover from okp pre have "\<forall>c\<in>set pre'. ?ok c" by simp
        ultimately show "?R as" using nb by blast
      next
        assume "?R as"
        then obtain pre b post where
          eq: "as = pre @ b # post" and nb: "find_one_id evs (event_id b) = None"
          and okp: "\<forall>c\<in>set pre. ?ok c" by blast
        from eq have "a # as = (a # pre) @ b # post" by simp
        moreover from okp oka have "\<forall>c\<in>set (a # pre). ?ok c" by simp
        ultimately show "?R (a # as)" using nb by blast
      qed
      with step Cons show ?thesis by simp
    qed
  qed
qed

lemma has_conflict_overlap_not_False:
  assumes "a \<in> set (allocations_col d)" "resource_id a = r"
    and "find_one_id (events_col d) (event_id a) = Some ev"
    and "start < ev_end ev" "ev_start ev < end'"
  shows "has_conflict d r start end' \<noteq> Inr False"
  using assms
  by (auto simp: has_conflict_def find_resource_id_def has_conflict_loop_False_iff)

lemma has_conflict_overlap_True:
  assumes "a \<in> set (allocations_col d)" "resource_id a = r"
    and "find_one_id (events_col d) (event_id a) = Some ev"
    and "start < ev_end ev" "ev_start ev < end'"
    and "events_resolve d r"
  shows "has_conflict d r start end' = Inr True"
proof -
  from assms(6) have "\<forall>a\<in>set (find_resource_id (allocations_col d) r).
      find_one_id (events_col d) (event_id a) \<noteq> None"
    by (simp add: events_resolve_def)
  then have "has_conflict d r start end' =
      Inr (\<exists>a\<in>set (find_resource_id (allocations_col d) r).
             \<exists>ev. find_one_id (events_col d) (event_id a) = Some ev \<and>
                  start < ev_end ev \<and> ev_start ev < end')"
    unfolding has_conflict_def by (rule has_conflict_loop_resolved)
  moreover from assms(1,2) have "a \<in> set (find_resource_id (allocations_col d) r)"
    by (simp add: find_resource_id_def)
  ultimately show ?thesis using assms(3,4,5) by auto
qed

section \<open>Stores the application builds\<close>

lemma allocate_cases:
  "fst (allocate sess oid req d) = d \<or>
   (\<exists>ek rk ev. req = POST (ek, rk) \<and> find_one_id (events_col d) ek = Some ev \<and>
      has_conflict d rk (ev_start ev) (ev_end ev) = Inr False \<and>
      fst (allocate sess oid req d) =
        d\<lparr>allocations_col := insert_one (allocations_col d)
             \<lparr>al_id = oid, event_id = ev_id ev, resource_id = rk\<rparr>\<rparr>)"
  by (auto simp: allocate_def login_required_def allocate_view_def
      split: request.splits option.splits sum.splits bool.splits)

lemma allocate_preserves_events_resolve:
  assumes "events_resolve d r"
  shows "events_resolve (fst (allocate sess oid req d)) r"
proof -
  from allocate_cases [of sess oid req d] show ?thesis
  proof
    assume "fst (allocate sess oid req d) = d"
    with assms show ?thesis by simp
  next
    assume "\<exists>ek rk ev. req = POST (ek, rk) \<and> find_one_id (events_col d) ek = Some ev \<and>
      has_conflict d rk (ev_start ev) (ev_end ev) = Inr False \<and>
      fst (allocate sess oid req d) =
        d\<lparr>allocations_col := insert_one (allocations_col d)
             \<lparr>al_id = oid, event_id = ev_id ev, resource_id = rk\<rparr>\<rparr>"
    then obtain ek rk ev where ev: "find_one_id (events_col d) ek = Some ev"
      and eq: "fst (allocate sess oid req d) =
        d\<lparr>allocations_col := insert_one (allocations_col d)
             \<lparr>al_id = oid, event_id = ev_id ev, resource_id = rk\<rparr>\<rparr>" by blast
    from ev have "find_one_id (events_col d) (ev_id ev) = Some ev" by (rule find_one_id_own)
    with assms eq show ?thesis
      by (auto simp: events_resolve_def find_resource_id_def insert_one_def)
  qed
qed

lemma events_preserves_events_resolve:
  assumes "events_resolve d r"
  shows "events_resolve (fst (events sess oid req d)) r"
proof -
  have "find_one_id (events_col d @ [x]) (event_id a) \<noteq> None"
    if "a \<in> set (find_resource_id (allocations_col d) r)" for a x
  proof -
    from assms that obtain ev where "find_one_id (events_col d) (event_id a) = Some ev"
      by (auto simp: events_resolve_def)
    then show ?thesis by (simp add: find_one_id_snoc)
  qed
  with assms show ?thesis
    by (auto simp: events_def events_view_def login_required_def insert_one_def Let_def
        events_resolve_def split: request.splits)
qed

lemma resources_preserves_events_resolve:
  "events_resolve d r \<Longrightarrow> events_resolve (fst (resources sess oid req d)) r"
  by (auto simp: resources_def resources_view_def login_required_def Let_def
      events_resolve_def split: request.splits)

lemma reachable_events_resolve: "reachable d \<Longrightarrow> events_resolve d r"
proof (induction rule: reachable.induct)
  case empty
  show ?case by (simp add: events_resolve_def find_resource_id_def)
next
  case (events d sess oid req)
  from events.IH show ?case by (rule events_preserves_events_resolve)
next
  case (resources d sess oid req)
  from resources.IH show ?case by (rule resources_preserves_events_resolve)
next
  case (allocate d sess oid req)
  from allocate.IH show ?case by (rule allocate_preserves_events_resolve)
qed

lemma events_resolve_db1: "events_resolve db1 10"
  by (simp add: events_resolve_def example_defs find_resource_id_def find_one_id_def)

lemma no_overlap_db1: "no_overlap db1"
  by (simp add: no_overlap_def example_defs)

lemma alice_logged_in: "alice ''user'' = Some ''alice''"
  by (simp add: alice_def)

section \<open>The no-overlap invariant\<close>

lemma clash_sym: "clash evs a b = clash evs b a"
  by (auto simp: clash_def split: option.splits)

lemma no_overlap_insert_one:
  assumes "no_overlap d"
    and "\<forall>a\<in>set (allocations_col d).
           resource_id a = resource_id x \<longrightarrow> \<not> clash (events_col d) a x"
  shows "no_overlap (d\<lparr>allocations_col := insert_one (allocations_col d) x\<rparr>)"
proof -
  let ?als = "allocations_col d"
  let ?evs = "events_col d"
  have "\<not> clash ?evs ((?als @ [x]) ! i) ((?als @ [x]) ! j)"
    if ij: "i < Suc (length ?als)" "j < Suc (length ?als)" "i \<noteq> j"
      and res: "resource_id ((?als @ [x]) ! i) = resource_id ((?als @ [x]) ! j)" for i j
  proof -
    consider "i < length ?als" "j < length ?als"
      | "i = length ?als" "j < length ?als"
      | "i < length ?als" "j = length ?als"
      using ij by linarith
    then show ?thesis
    proof cases
      case 1
      with res ij assms(1) show ?thesis
        by (simp add: no_overlap_def Let_def nth_append)
    next
      case 2
      with res have "resource_id (?als ! j) = resource_id x" by (simp add: nth_append)
      with 2 assms(2) have "\<not> clash ?evs (?als ! j) x" by simp
      with 2 show ?thesis by (simp add: nth_append clash_sym)
    next
      case 3
      with res have "resource_id (?als ! i) = resource_id x" by (simp add: nth_append)
      with 3 assms(2) have "\<not> clash ?evs (?als ! i) x" by simp
      with 3 show ?thesis by (simp add: nth_append)
    qed
  qed
  then show ?thesis
    by (simp add: no_overlap_def Let_def insert_one_def)
qed

lemma has_conflict_False_no_clash:
  assumes "has_conflict d r (ev_start ev) (ev_end ev) = Inr False"
    and "find_one_id (events_col d) (event_id x) = Some ev"
    and "resource_id x = r"
  shows "\<forall>a\<in>set (allocations_col d).
           resource_id a = resource_id x \<longrightarrow> \<not> clash (events_col d) a x"
  using assms
  by (auto simp: has_conflict_def find_resource_id_def has_conflict_loop_False_iff clash_def
      split: option.splits)

text \<open>
  Claim C1. From a store in which no two allocations of one resource reference events
  with overlapping intervals, \<open>allocate\<close> leads to a store with the same property,
  whatever the session and the request: a request that is refused or fails leaves the
  store as it was, and one that succeeds adds an allocation whose event overlaps the
  event of no allocation of that resource.
\<close>

theorem allocate_preserves_no_overlap:
  "no_overlap d \<Longrightarrow> no_overlap (fst (allocate sess oid req d))"
proof -
  assume inv: "no_overlap d"
  from allocate_cases [of sess oid req d] show ?thesis
  proof
    assume "fst (allocate sess oid req d) = d"
    with inv show ?thesis by simp
  next
    assume "\<exists>ek rk ev. req = POST (ek, rk) \<and> find_one_id (events_col d) ek = Some ev \<and>
      has_conflict d rk (ev_start ev) (ev_end ev) = Inr False \<and>
      fst (allocate sess oid req d) =
        d\<lparr>allocations_col := insert_one (allocations_col d)
             \<lparr>al_id = oid, event_id = ev_id ev, resource_id = rk\<rparr>\<rparr>"
    then obtain ek rk ev where ev: "find_one_id (events_col d) ek = Some ev"
      and free: "has_conflict d rk (ev_start ev) (ev_end ev) = Inr False"
      and eq: "fst (allocate sess oid req d) =
        d\<lparr>allocations_col := insert_one (allocations_col d)
             \<lparr>al_id = oid, event_id = ev_id ev, resource_id = rk\<rparr>\<rparr>" by blast
    let ?x = "\<lparr>al_id = oid, event_id = ev_id ev, resource_id = rk\<rparr>"
    from ev have "find_one_id (events_col d) (event_id ?x) = Some ev"
      by (simp add: find_one_id_own)
    with free have "\<forall>a\<in>set (allocations_col d).
        resource_id a = resource_id ?x \<longrightarrow> \<not> clash (events_col d) a ?x"
      by (intro has_conflict_False_no_clash [where r = rk and ev = ev]) simp_all
    with inv have "no_overlap (d\<lparr>allocations_col := insert_one (allocations_col d) ?x\<rparr>)"
      by (rule no_overlap_insert_one)
    with eq show ?thesis by simp
  qed
qed

theorem allocate_preserves_no_overlap_witness:
  "no_overlap db1 \<and>
   allocations_col (fst (allocate alice 21 (POST (2, 10)) db1)) =
     [\<lparr>al_id = 20, event_id = 1, resource_id = 10\<rparr>,
      \<lparr>al_id = 21, event_id = 2, resource_id = 10\<rparr>] \<and>
   no_overlap (fst (allocate alice 21 (POST (2, 10)) db1))"
  using allocate_preserves_no_overlap [OF no_overlap_db1, of alice 21 "POST (2, 10)"]
    no_overlap_db1
  by (simp add: allocate_defs example_defs)

section \<open>What the conflict detector answers\<close>

text \<open>
  Claim C2. \<open>has_conflict\<close> returns True only when some allocation of the resource
  references an event with \<open>start < e\<close> and \<open>s < end\<close>; and where every allocation of
  the resource references a stored event, it returns, and returns True exactly in that
  case. Both comparisons are strict, so an interval that only touches a booked one is
  free: with the room held from 10:00 to 11:00, the event from 11:00 to 12:00 is
  allocated as well.
\<close>

theorem has_conflict_iff_overlap:
  "(has_conflict d r start end' = Inr True \<longrightarrow>
      (\<exists>a\<in>set (allocations_col d). resource_id a = r \<and>
         (\<exists>ev. find_one_id (events_col d) (event_id a) = Some ev \<and>
               start < ev_end ev \<and> ev_start ev < end'))) \<and>
   (events_resolve d r \<longrightarrow>
      has_conflict d r start end' =
        Inr (\<exists>a\<in>set (allocations_col d). resource_id a = r \<and>
               (\<exists>ev. find_one_id (events_col d) (event_id a) = Some ev \<and>
                     start < ev_end ev \<and> ev_start ev < end')))"
proof (intro conjI impI)
  assume "has_conflict d r start end' = Inr True"
  then have "\<exists>a\<in>set (find_resource_id (allocations_col d) r).
      \<exists>ev. find_one_id (events_col d) (event_id a) = Some ev \<and>
           start < ev_end ev \<and> ev_start ev < end'"
    unfolding has_conflict_def by (rule has_conflict_loop_True_imp)
  then show "\<exists>a\<in>set (allocations_col d). resource_id a = r \<and>
      (\<exists>ev. find_one_id (events_col d) (event_id a) = Some ev \<and>
            start < ev_end ev \<and> ev_start ev < end')"
    by (auto simp: find_resource_id_def)
next
  assume "events_resolve d r"
  then show "has_conflict d r start end' =
      Inr (\<exists>a\<in>set (allocations_col d). resource_id a = r \<and>
             (\<exists>ev. find_one_id (events_col d) (event_id a) = Some ev \<and>
                   start < ev_end ev \<and> ev_start ev < end'))"
    unfolding events_resolve_def has_conflict_def
    by (simp add: has_conflict_loop_resolved find_resource_id_def) blast
qed

theorem has_conflict_iff_overlap_witness:
  "events_resolve db1 10 \<and>
   has_conflict db1 10 (hhmm 11 0) (hhmm 12 0) = Inr False \<and>
   has_conflict db1 10 (hhmm 10 30) (hhmm 10 45) = Inr True \<and>
   allocate alice 20 (POST (1, 10)) db0 =
     (db1, Inr (Render_allocate [standup, review, huddle] [room])) \<and>
   snd (allocate alice 21 (POST (2, 10)) db1) =
     Inr (Render_allocate [standup, review, huddle] [room])"
  using has_conflict_iff_overlap [of db1 10 "hhmm 11 0" "hhmm 12 0"]
    has_conflict_iff_overlap [of db1 10 "hhmm 10 30" "hhmm 10 45"]
    events_resolve_db1
  by (simp add: allocate_defs example_defs)

section \<open>Rejected allocations\<close>

lemma allocate_unchanged_unless_False:
  assumes "find_one_id (events_col d) ek = Some ev"
    and "has_conflict d rk (ev_start ev) (ev_end ev) \<noteq> Inr False"
  shows "fst (allocate sess oid (POST (ek, rk)) d) = d"
  using assms
  by (auto simp: allocate_def login_required_def allocate_view_def
      split: sum.splits bool.splits)

lemma allocate_fails_unless_False:
  assumes "sess ''user'' = Some u"
    and "find_one_id (events_col d) ek = Some ev"
    and "has_conflict d rk (ev_start ev) (ev_end ev) \<noteq> Inr False"
  shows "snd (allocate sess oid (POST (ek, rk)) d) =
           Inr (Body ''Conflict: Resource already booked'') \<or>
         snd (allocate sess oid (POST (ek, rk)) d) = Inl TypeError"
proof (cases "has_conflict d rk (ev_start ev) (ev_end ev)")
  case (Inl err)
  moreover have "err = TypeError" by (cases err)
  ultimately show ?thesis using assms(1,2)
    by (simp add: allocate_def login_required_def allocate_view_def)
next
  case (Inr b)
  with assms show ?thesis
    by (cases b) (simp_all add: allocate_def login_required_def allocate_view_def)
qed

lemma allocate_conflict:
  assumes "sess ''user'' = Some u"
    and "find_one_id (events_col d) ek = Some ev"
    and "has_conflict d rk (ev_start ev) (ev_end ev) = Inr True"
  shows "allocate sess oid (POST (ek, rk)) d =
           (d, Inr (Body ''Conflict: Resource already booked''))"
  using assms by (simp add: allocate_def login_required_def allocate_view_def)

text \<open>
  Claim C3. When the resource has an allocation to an event that overlaps the event
  asked for, \<open>allocate\<close> fails and leaves the store as it was: no allocation is added,
  the count and the contents are the same. The failure is the conflict message where
  the allocations of the resource resolve; otherwise it is the conflict message or
  the TypeError of a missing event.
\<close>

theorem allocate_rejects_overlap:
  assumes "sess ''user'' = Some u"
    and "find_one_id (events_col d) ek = Some ev"
    and "a \<in> set (allocations_col d)" and "resource_id a = rk"
    and "find_one_id (events_col d) (event_id a) = Some ev'"
    and "ev_start ev < ev_end ev'" and "ev_start ev' < ev_end ev"
  shows "fst (allocate sess oid (POST (ek, rk)) d) = d \<and>
         (snd (allocate sess oid (POST (ek, rk)) d) =
            Inr (Body ''Conflict: Resource already booked'') \<or>
          snd (allocate sess oid (POST (ek, rk)) d) = Inl TypeError) \<and>
         (events_resolve d rk \<longrightarrow>
            allocate sess oid (POST (ek, rk)) d =
              (d, Inr (Body ''Conflict: Resource already booked'')))"
proof (intro conjI impI)
  from assms(3-7) have nF: "has_conflict d rk (ev_start ev) (ev_end ev) \<noteq> Inr False"
    by (rule has_conflict_overlap_not_False)
  with assms(2) show "fst (allocate sess oid (POST (ek, rk)) d) = d"
    by (rule allocate_unchanged_unless_False)
  from assms(1,2) nF
  show "snd (allocate sess oid (POST (ek, rk)) d) =
          Inr (Body ''Conflict: Resource already booked'') \<or>
        snd (allocate sess oid (POST (ek, rk)) d) = Inl TypeError"
    by (rule allocate_fails_unless_False)
next
  assume "events_resolve d rk"
  with assms(3-7) have "has_conflict d rk (ev_start ev) (ev_end ev) = Inr True"
    by (rule has_conflict_overlap_True)
  with assms(1,2) show "allocate sess oid (POST (ek, rk)) d =
      (d, Inr (Body ''Conflict: Resource already booked''))"
    by (rule allocate_conflict)
qed

theorem allocate_rejects_overlap_witness:
  "allocate alice 21 (POST (3, 10)) db1 =
     (db1, Inr (Body ''Conflict: Resource already booked'')) \<and>
   length (allocations_col (fst (allocate alice 21 (POST (3, 10)) db1))) =
     length (allocations_col db1)"
proof -
  let ?a = "\<lparr>al_id = 20, event_id = 1, resource_id = 10\<rparr>"
  have 2: "find_one_id (events_col db1) 3 = Some huddle"
    by (simp add: example_defs find_one_id_def)
  have 3: "?a \<in> set (allocations_col db1)"
    by (simp add: example_defs)
  have 4: "resource_id ?a = 10" by simp
  have 5: "find_one_id (events_col db1) (event_id ?a) = Some standup"
    by (simp add: example_defs find_one_id_def)
  have 6: "ev_start huddle < ev_end standup" by (simp add: example_defs)
  have 7: "ev_start standup < ev_end huddle" by (simp add: example_defs)
  from allocate_rejects_overlap [where sess = alice and oid = 21,
      OF alice_logged_in 2 3 4 5 6 7] events_resolve_db1
  show ?thesis by simp
qed

section \<open>The same event on the same resource\<close>

text \<open>
  Where every stored event ends after it starts, \<open>allocate\<close> never binds an event to a
  resource a second time: the bindings of the allocations stay distinct.
\<close>

lemma allocate_preserves_distinct_bindings:
  assumes "\<forall>ev\<in>set (events_col d). ev_start ev < ev_end ev"
    and "distinct (map binding (allocations_col d))"
  shows "distinct (map binding (allocations_col (fst (allocate sess oid req d))))"
proof -
  from allocate_cases [of sess oid req d] show ?thesis
  proof
    assume "fst (allocate sess oid req d) = d"
    with assms(2) show ?thesis by simp
  next
    assume "\<exists>ek rk ev. req = POST (ek, rk) \<and> find_one_id (events_col d) ek = Some ev \<and>
      has_conflict d rk (ev_start ev) (ev_end ev) = Inr False \<and>
      fst (allocate sess oid req d) =
        d\<lparr>allocations_col := insert_one (allocations_col d)
             \<lparr>al_id = oid, event_id = ev_id ev, resource_id = rk\<rparr>\<rparr>"
    then obtain ek rk ev where ev: "find_one_id (events_col d) ek = Some ev"
      and free: "has_conflict d rk (ev_start ev) (ev_end ev) = Inr False"
      and eq: "fst (allocate sess oid req d) =
        d\<lparr>allocations_col := insert_one (allocations_col d)
             \<lparr>al_id = oid, event_id = ev_id ev, resource_id = rk\<rparr>\<rparr>" by blast
    from ev have own: "find_one_id (events_col d) (ev_id ev) = Some ev"
      by (rule find_one_id_own)
    from ev assms(1) have pos: "ev_start ev < ev_end ev"
      by (auto dest: find_one_id_Some)
    have "(ev_id ev, rk) \<notin> set (map binding (allocations_col d))"
    proof
      assume "(ev_id ev, rk) \<in> set (map binding (allocations_col d))"
      then obtain a where a: "a \<in> set (allocations_col d)"
        and "event_id a = ev_id ev" and r: "resource_id a = rk"
        by (auto simp: binding_def)
      with own have "find_one_id (events_col d) (event_id a) = Some ev" by simp
      with a r have "has_conflict d rk (ev_start ev) (ev_end ev) \<noteq> Inr False"
        using pos pos by (rule has_conflict_overlap_not_False)
      with free show False by simp
    qed
    with assms(2) eq show ?thesis
      by (simp add: insert_one_def binding_def)
  qed
qed

text \<open>
  Claim C10. For an event with \<open>start < end\<close> that is already allocated to the
  resource, a second \<open>allocate\<close> of the same event to the same resource fails and adds
  nothing to the store. Where the allocations of the resource resolve, the failure is
  the conflict message, the interval overlapping itself; otherwise it is the conflict
  message or the TypeError of a missing event.
\<close>

theorem allocate_same_event_twice_rejected:
  assumes "sess ''user'' = Some u"
    and "find_one_id (events_col d) ek = Some ev"
    and "ev_start ev < ev_end ev"
    and "a \<in> set (allocations_col d)" and "event_id a = ek" and "resource_id a = rk"
  shows "fst (allocate sess oid (POST (ek, rk)) d) = d \<and>
         (snd (allocate sess oid (POST (ek, rk)) d) =
            Inr (Body ''Conflict: Resource already booked'') \<or>
          snd (allocate sess oid (POST (ek, rk)) d) = Inl TypeError) \<and>
         (events_resolve d rk \<longrightarrow>
            allocate sess oid (POST (ek, rk)) d =
              (d, Inr (Body ''Conflict: Resource already booked'')))"
proof (intro conjI impI)
  from assms(2,5) have ev: "find_one_id (events_col d) (event_id a) = Some ev" by simp
  from assms(4,6) ev assms(3,3)
  have nF: "has_conflict d rk (ev_start ev) (ev_end ev) \<noteq> Inr False"
    by (rule has_conflict_overlap_not_False)
  with assms(2) show "fst (allocate sess oid (POST (ek, rk)) d) = d"
    by (rule allocate_unchanged_unless_False)
  from assms(1,2) nF
  show "snd (allocate sess oid (POST (ek, rk)) d) =
          Inr (Body ''Conflict: Resource already booked'') \<or>
        snd (allocate sess oid (POST (ek, rk)) d) = Inl TypeError"
    by (rule allocate_fails_unless_False)
  assume "events_resolve d rk"
  with assms(4,6) ev assms(3,3)
  have "has_conflict d rk (ev_start ev) (ev_end ev) = Inr True"
    by (rule has_conflict_overlap_True)
  with assms(1,2) show "allocate sess oid (POST (ek, rk)) d =
      (d, Inr (Body ''Conflict: Resource already booked''))"
    by (rule allocate_conflict)
qed

theorem allocate_same_event_twice_rejected_witness:
  "allocate alice 21 (POST (1, 10)) db1 =
     (db1, Inr (Body ''Conflict: Resource already booked''))"
proof -
  let ?a = "\<lparr>al_id = 20, event_id = 1, resource_id = 10\<rparr>"
  have 2: "find_one_id (events_col db1) 1 = Some standup"
    by (simp add: example_defs find_one_id_def)
  have 3: "ev_start standup < ev_end standup" by (simp add: example_defs)
  have 4: "?a \<in> set (allocations_col db1)"
    by (simp add: example_defs)
  have 5: "event_id ?a = 1" by simp
  have 6: "resource_id ?a = 10" by simp
  from allocate_same_event_twice_rejected [where sess = alice and oid = 21,
      OF alice_logged_in 2 3 4 5 6] events_resolve_db1
  show ?thesis by simp
qed

section \<open>Allocations whose event is missing\<close>

text \<open>
  In \<open>db3\<close> the only allocation of the room references the event key 99, which is not
  stored, so the scan of \<open>has_conflict\<close> reaches it at once. What it raises, and what
  \<open>allocate\<close> surfaces, is the TypeError of subscripting None: the very outcome of a
  request that names an event key unknown to an intact store such as \<open>db0\<close>. The
  failure of the store's integrity is not told apart from a wrong input.
\<close>

theorem dangling_error_not_distinct_counterexample:
  "find_resource_id (allocations_col db3) 10 =
     [\<lparr>al_id = 22, event_id = 99, resource_id = 10\<rparr>] \<and>
   find_one_id (events_col db3) 99 = None \<and>
   has_conflict db3 10 (hhmm 11 0) (hhmm 12 0) = Inl TypeError \<and>
   allocate alice 23 (POST (2, 10)) db3 = (db3, Inl TypeError) \<and>
   events_resolve db0 10 \<and>
   allocate alice 23 (POST (99, 10)) db0 = (db0, Inl TypeError) \<and>
   snd (allocate alice 23 (POST (2, 10)) db3) = snd (allocate alice 23 (POST (99, 10)) db0)"
  by (simp add: example_defs allocate_defs events_resolve_def)

text \<open>
  Claim C9, amended. An allocation of the resource whose event is missing is never
  skipped: \<open>has_conflict\<close> returns False only when every allocation of the resource
  resolves, and it raises exactly when the scan reaches such an allocation, all the
  allocations before it resolving to events that do not overlap. What is raised is
  TypeError, the only error of these views and the one an unknown event key raises
  too; \<open>allocate\<close> surfaces it and stores nothing.
\<close>

theorem has_conflict_dangling:
  "(has_conflict d r start end' = Inl TypeError \<longleftrightarrow>
      (\<exists>pre a post.
          find_resource_id (allocations_col d) r = pre @ a # post \<and>
          find_one_id (events_col d) (event_id a) = None \<and>
          (\<forall>b\<in>set pre. \<exists>ev. find_one_id (events_col d) (event_id b) = Some ev \<and>
                              \<not> (start < ev_end ev \<and> ev_start ev < end')))) \<and>
   (has_conflict d r start end' = Inr False \<longrightarrow> events_resolve d r) \<and>
   (sess ''user'' \<noteq> None \<and> find_one_id (events_col d) ek = Some ev \<and>
    has_conflict d r (ev_start ev) (ev_end ev) = Inl TypeError \<longrightarrow>
      allocate sess oid (POST (ek, r)) d = (d, Inl TypeError))"
proof (intro conjI)
  show "has_conflict d r start end' = Inl TypeError \<longleftrightarrow>
      (\<exists>pre a post.
          find_resource_id (allocations_col d) r = pre @ a # post \<and>
          find_one_id (events_col d) (event_id a) = None \<and>
          (\<forall>b\<in>set pre. \<exists>ev. find_one_id (events_col d) (event_id b) = Some ev \<and>
                              \<not> (start < ev_end ev \<and> ev_start ev < end')))"
    unfolding has_conflict_def by (rule has_conflict_loop_error_iff)
  show "has_conflict d r start end' = Inr False \<longrightarrow> events_resolve d r"
    unfolding has_conflict_def events_resolve_def
    by (simp add: has_conflict_loop_False_iff) blast
  show "sess ''user'' \<noteq> None \<and> find_one_id (events_col d) ek = Some ev \<and>
    has_conflict d r (ev_start ev) (ev_end ev) = Inl TypeError \<longrightarrow>
      allocate sess oid (POST (ek, r)) d = (d, Inl TypeError)"
    by (simp add: allocate_def login_required_def allocate_view_def)
qed

theorem has_conflict_dangling_witness:
  "has_conflict db3 10 (hhmm 11 0) (hhmm 12 0) = Inl TypeError \<and>
   has_conflict db2 10 (hhmm 11 0) (hhmm 12 0) = Inl TypeError \<and>
   \<not> events_resolve db3 10 \<and>
   has_conflict db3 10 (hhmm 11 0) (hhmm 12 0) \<noteq> Inr False \<and>
   allocate alice 23 (POST (2, 10)) db3 = (db3, Inl TypeError)"
proof -
  note inst = has_conflict_dangling [where d = db3 and r = 10 and start = "hhmm 11 0"
      and end' = "hhmm 12 0" and sess = alice and ek = 2 and ev = review and oid = 23]
  have "find_resource_id (allocations_col db3) 10 =
          [] @ \<lparr>al_id = 22, event_id = 99, resource_id = 10\<rparr> # []"
    by (simp add: example_defs find_resource_id_def)
  moreover have "find_one_id (events_col db3)
      (event_id \<lparr>al_id = 22, event_id = 99, resource_id = 10\<rparr>) = None"
    by (simp add: example_defs find_one_id_def)
  ultimately have 1: "has_conflict db3 10 (hhmm 11 0) (hhmm 12 0) = Inl TypeError"
    using inst by fastforce
  have 2: "has_conflict db2 10 (hhmm 11 0) (hhmm 12 0) = Inl TypeError"
    by (simp add: example_defs allocate_defs)
  have 3: "\<not> events_resolve db3 10"
    by (simp add: events_resolve_def example_defs find_resource_id_def find_one_id_def)
  from inst 3 have 4: "has_conflict db3 10 (hhmm 11 0) (hhmm 12 0) \<noteq> Inr False"
    by blast
  have ev: "find_one_id (events_col db3) 2 = Some review"
    by (simp add: example_defs find_one_id_def)
  have times: "ev_start review = hhmm 11 0" "ev_end review = hhmm 12 0"
    by (simp_all add: review_def)
  from alice_logged_in have "alice ''user'' \<noteq> None" by simp
  with inst ev 1 times have 5: "allocate alice 23 (POST (2, 10)) db3 = (db3, Inl TypeError)"
    by simp
  from 1 2 3 4 5 show ?thesis by blast
qed

section \<open>Unknown keys in an allocation request\<close>

text \<open>
  No resource of \<open>db0\<close> has the key 77. The request to allocate the standup to 77 is
  served all the same, and the allocation is stored.
\<close>

theorem allocate_unknown_resource_counterexample:
  "77 \<notin> res_id ` set (resources_col db0) \<and>
   allocate alice 23 (POST (1, 77)) db0 =
     (db0\<lparr>allocations_col := [\<lparr>al_id = 23, event_id = 1, resource_id = 77\<rparr>]\<rparr>,
      Inr (Render_allocate [standup, review, huddle] [room]))"
  by (simp add: example_defs allocate_defs)

text \<open>
  Claim C6, amended. When the event key is not in the store, \<open>allocate\<close> fails, with the
  TypeError of subscripting None, and stores nothing. The resource key is not looked
  up. With a stored event and a resource key that no allocation carries, the
  allocation is stored, whether or not a resource has that key; and replacing the
  collection of resources by any other changes neither whether the request fails,
  nor whether it is answered with the conflict message, nor what it stores.
\<close>

theorem allocate_unknown_event:
  "sess ''user'' = Some u \<Longrightarrow>
   (find_one_id (events_col d) ek = None \<longrightarrow>
      allocate sess oid (POST (ek, rk)) d = (d, Inl TypeError)) \<and>
   (find_one_id (events_col d) ek = Some ev \<and>
    find_resource_id (allocations_col d) rk = [] \<longrightarrow>
      allocate sess oid (POST (ek, rk)) d =
        (d\<lparr>allocations_col := allocations_col d @
              [\<lparr>al_id = oid, event_id = ev_id ev, resource_id = rk\<rparr>]\<rparr>,
         Inr (Render_allocate (events_col d) (resources_col d)))) \<and>
   isl (snd (allocate sess oid (POST (ek, rk)) (d\<lparr>resources_col := rs\<rparr>))) =
     isl (snd (allocate sess oid (POST (ek, rk)) d)) \<and>
   (snd (allocate sess oid (POST (ek, rk)) (d\<lparr>resources_col := rs\<rparr>)) =
      Inr (Body ''Conflict: Resource already booked'')) =
     (snd (allocate sess oid (POST (ek, rk)) d) =
      Inr (Body ''Conflict: Resource already booked'')) \<and>
   fst (allocate sess oid (POST (ek, rk)) (d\<lparr>resources_col := rs\<rparr>)) =
     (fst (allocate sess oid (POST (ek, rk)) d))\<lparr>resources_col := rs\<rparr>"
proof (intro conjI impI)
  assume user: "sess ''user'' = Some u"
  let ?d' = "d\<lparr>resources_col := rs\<rparr>"
  have hc: "has_conflict ?d' rk s e = has_conflict d rk s e" for s e
    by (simp add: has_conflict_def)
  show "allocate sess oid (POST (ek, rk)) d = (d, Inl TypeError)"
    if "find_one_id (events_col d) ek = None"
    using user that by (simp add: allocate_def login_required_def allocate_view_def)
  show "allocate sess oid (POST (ek, rk)) d =
        (d\<lparr>allocations_col := allocations_col d @
              [\<lparr>al_id = oid, event_id = ev_id ev, resource_id = rk\<rparr>]\<rparr>,
         Inr (Render_allocate (events_col d) (resources_col d)))"
    if "find_one_id (events_col d) ek = Some ev \<and>
        find_resource_id (allocations_col d) rk = []"
    using user that
    by (simp add: allocate_def login_required_def allocate_view_def has_conflict_def
        insert_one_def)
  show "isl (snd (allocate sess oid (POST (ek, rk)) ?d')) =
        isl (snd (allocate sess oid (POST (ek, rk)) d))"
    using user
    by (auto simp: allocate_def login_required_def allocate_view_def hc
        split: option.splits sum.splits bool.splits)
  show "(snd (allocate sess oid (POST (ek, rk)) ?d') =
           Inr (Body ''Conflict: Resource already booked'')) =
        (snd (allocate sess oid (POST (ek, rk)) d) =
           Inr (Body ''Conflict: Resource already booked''))"
    using user
    by (auto simp: allocate_def login_required_def allocate_view_def hc
        split: option.splits sum.splits bool.splits)
  show "fst (allocate sess oid (POST (ek, rk)) ?d') =
        (fst (allocate sess oid (POST (ek, rk)) d))\<lparr>resources_col := rs\<rparr>"
    using user
    by (auto simp: allocate_def login_required_def allocate_view_def hc
        split: option.splits sum.splits bool.splits)
qed

theorem allocate_unknown_event_witness:
  "find_one_id (events_col db0) 99 = None \<and>
   allocate alice 23 (POST (99, 10)) db0 = (db0, Inl TypeError) \<and>
   77 \<notin> res_id ` set (resources_col db0) \<and>
   allocate alice 23 (POST (1, 77)) db0 =
     (db0\<lparr>allocations_col := allocations_col db0 @
          [\<lparr>al_id = 23, event_id = ev_id standup, resource_id = 77\<rparr>]\<rparr>,
      Inr (Render_allocate (events_col db0) (resources_col db0))) \<and>
   isl (snd (allocate alice 23 (POST (1, 77)) (db0\<lparr>resources_col := []\<rparr>))) =
     isl (snd (allocate alice 23 (POST (1, 77)) db0)) \<and>
   \<not> isl (snd (allocate alice 23 (POST (1, 77)) db0))"
proof -
  have 1: "find_one_id (events_col db0) 99 = None"
    by (simp add: example_defs find_one_id_def)
  from allocate_unknown_event [where sess = alice and oid = 23 and rk = 10 and ek = 99
      and d = db0, OF alice_logged_in] 1
  have 2: "allocate alice 23 (POST (99, 10)) db0 = (db0, Inl TypeError)" by blast
  have 3: "77 \<notin> res_id ` set (resources_col db0)"
    by (simp add: example_defs)
  have ev: "find_one_id (events_col db0) 1 = Some standup"
    by (simp add: example_defs find_one_id_def)
  have none: "find_resource_id (allocations_col db0) 77 = []"
    by (simp add: example_defs find_resource_id_def)
  note inst = allocate_unknown_event [where sess = alice and oid = 23 and rk = 77
      and ek = 1 and ev = standup and d = db0 and rs = "[]", OF alice_logged_in]
  from inst ev none have 4: "allocate alice 23 (POST (1, 77)) db0 =
     (db0\<lparr>allocations_col := allocations_col db0 @
          [\<lparr>al_id = 23, event_id = ev_id standup, resource_id = 77\<rparr>]\<rparr>,
      Inr (Render_allocate (events_col db0) (resources_col db0)))" by blast
  from inst have 5: "isl (snd (allocate alice 23 (POST (1, 77)) (db0\<lparr>resources_col := []\<rparr>))) =
     isl (snd (allocate alice 23 (POST (1, 77)) db0))" by blast
  from 4 have 6: "\<not> isl (snd (allocate alice 23 (POST (1, 77)) db0))" by simp
  from 1 2 3 4 5 6 show ?thesis by blast
qed

section \<open>Creating events and resources\<close>

text \<open>
  An event with an empty title and a valid time range is stored: the view checks the
  time range only.
\<close>

theorem events_empty_title_counterexample:
  "events alice 4 (POST ('''', hhmm 9 0, hhmm 10 0, ''untitled'')) db0 =
     (db0\<lparr>events_col := [standup, review, huddle,
         \<lparr>ev_id = 4, ev_title = '''', ev_start = hhmm 9 0, ev_end = hhmm 10 0,
          ev_description = ''untitled''\<rparr>]\<rparr>,
      Inr (Render_events [standup, review, huddle,
         \<lparr>ev_id = 4, ev_title = '''', ev_start = hhmm 9 0, ev_end = hhmm 10 0,
          ev_description = ''untitled''\<rparr>]))"
  by (simp add: events_def events_view_def login_required_def insert_one_def example_defs)

text \<open>
  Claim C5, amended. Posting an event with \<open>start \<ge> end\<close> (an empty range included) is
  answered with "Invalid time range" and stores nothing; with \<open>start < end\<close> the event
  is stored, whatever its title.
\<close>

theorem events_time_range_validation:
  "sess ''user'' = Some u \<Longrightarrow>
   (start \<ge> end' \<longrightarrow>
      events sess oid (POST (title, start, end', desc)) d =
        (d, Inr (Body ''Invalid time range''))) \<and>
   (start < end' \<longrightarrow>
      events_col (fst (events sess oid (POST (title, start, end', desc)) d)) =
        events_col d @ [\<lparr>ev_id = oid, ev_title = title, ev_start = start, ev_end = end',
                         ev_description = desc\<rparr>])"
  by (simp add: events_def events_view_def login_required_def insert_one_def Let_def)

theorem events_time_range_validation_witness:
  "events alice 4 (POST (''retro'', hhmm 9 0, hhmm 9 0, '''')) db0 =
     (db0, Inr (Body ''Invalid time range'')) \<and>
   events alice 4 (POST (''retro'', hhmm 10 0, hhmm 9 0, '''')) db0 =
     (db0, Inr (Body ''Invalid time range'')) \<and>
   events_col (fst (events alice 4 (POST (''retro'', hhmm 9 0, hhmm 10 0, '''')) db0)) =
     events_col db0 @ [\<lparr>ev_id = 4, ev_title = ''retro'', ev_start = hhmm 9 0,
                       ev_end = hhmm 10 0, ev_description = ''''\<rparr>]"
proof -
  from events_time_range_validation [where sess = alice and oid = 4 and d = db0
      and title = "''retro''" and start = "hhmm 9 0" and end' = "hhmm 9 0" and desc = "''''",
      OF alice_logged_in]
    events_time_range_validation [where sess = alice and oid = 4 and d = db0
      and title = "''retro''" and start = "hhmm 10 0" and end' = "hhmm 9 0" and desc = "''''",
      OF alice_logged_in]
    events_time_range_validation [where sess = alice and oid = 4 and d = db0
      and title = "''retro''" and start = "hhmm 9 0" and end' = "hhmm 10 0" and desc = "''''",
      OF alice_logged_in]
  show ?thesis by (simp add: hhmm_def)
qed

text \<open>A resource with an empty name is stored.\<close>

theorem resources_empty_name_counterexample:
  "resources alice 11 (POST ('''', ''space'')) db0 =
     (db0\<lparr>resources_col := [room, \<lparr>res_id = 11, res_name = '''', res_type = ''space''\<rparr>]\<rparr>,
      Inr (Render_resources [room, \<lparr>res_id = 11, res_name = '''', res_type = ''space''\<rparr>]))"
  by (simp add: resources_def resources_view_def login_required_def insert_one_def
      example_defs)

text \<open>
  Claim C8, amended. The resources view checks nothing: every posted name and type,
  the empty name included, is stored as a new resource and shown in the rendered list.
\<close>

theorem resources_creates_for_every_name:
  "sess ''user'' = Some u \<Longrightarrow>
   resources_col (fst (resources sess oid (POST (name, type)) d)) =
     resources_col d @ [\<lparr>res_id = oid, res_name = name, res_type = type\<rparr>] \<and>
   snd (resources sess oid (POST (name, type)) d) =
     Inr (Render_resources
            (resources_col d @ [\<lparr>res_id = oid, res_name = name, res_type = type\<rparr>]))"
  by (simp add: resources_def resources_view_def login_required_def insert_one_def Let_def)

theorem resources_creates_for_every_name_witness:
  "resources_col (fst (resources alice 11 (POST (''projector'', ''equipment'')) db0)) =
     [room, \<lparr>res_id = 11, res_name = ''projector'', res_type = ''equipment''\<rparr>]"
proof -
  from resources_creates_for_every_name [where sess = alice and oid = 11 and d = db0
      and name = "''projector''" and type = "''equipment''", OF alice_logged_in]
  show ?thesis by (simp add: db0_def)
qed

section \<open>The report\<close>

lemma report_allocations_hours:
  "map_sum id fst (report_allocations evs now1 start end' als hours u1 k1) =
   map_sum id fst (report_allocations evs now2 start end' als hours u2 k2)"
  by (induction als arbitrary: hours u1 u2 k1 k2) (auto split: option.splits)

lemma report_allocations_same_side:
  assumes "\<forall>ev\<in>set evs. \<forall>i j. (ev_start ev > now1 i) = (ev_start ev > now2 j)"
  shows "map_sum id (\<lambda>(h, u, k). (h, u))
           (report_allocations evs now1 start end' als hours u k1) =
         map_sum id (\<lambda>(h, u, k). (h, u))
           (report_allocations evs now2 start end' als hours u k2)"
  using assms
proof (induction als arbitrary: hours u k1 k2)
  case Nil
  then show ?case by simp
next
  case (Cons a als)
  show ?case
  proof (cases "find_one_id evs (event_id a)")
    case None
    then show ?thesis by simp
  next
    case (Some ev)
    then have "ev \<in> set evs" by (simp add: find_one_id_Some)
    with Cons.prems have "(ev_start ev > now1 k1) = (ev_start ev > now2 k2)" by blast
    with Some Cons.IH [OF Cons.prems] show ?thesis by simp
  qed
qed

lemma report_resources_hours:
  "map (\<lambda>(n, h, u). (n, h, 0::nat)) rows1 = map (\<lambda>(n, h, u). (n, h, 0::nat)) rows2 \<Longrightarrow>
   map_sum id (map (\<lambda>(n, h, u). (n, h, 0::nat)))
     (report_resources d now1 start end' rs rows1 k1) =
   map_sum id (map (\<lambda>(n, h, u). (n, h, 0::nat)))
     (report_resources d now2 start end' rs rows2 k2)"
proof (induction rs arbitrary: rows1 rows2 k1 k2)
  case Nil
  then show ?case by simp
next
  case (Cons r rs)
  let ?als = "find_resource_id (allocations_col d) (res_id r)"
  let ?r1 = "report_allocations (events_col d) now1 start end' ?als 0 0 k1"
  let ?r2 = "report_allocations (events_col d) now2 start end' ?als 0 0 k2"
  have eq: "map_sum id fst ?r1 = map_sum id fst ?r2"
    by (rule report_allocations_hours)
  show ?case
  proof (cases ?r1)
    case (Inl err)
    with eq obtain err' where "?r2 = Inl err'" by (cases ?r2) auto
    with Inl eq show ?thesis by simp
  next
    case (Inr t1)
    with eq obtain t2 where r2: "?r2 = Inr t2" and h: "fst t1 = fst t2"
      by (cases ?r2) auto
    obtain h1 u1 k1' where t1: "t1 = (h1, u1, k1')" by (cases t1)
    obtain h2 u2 k2' where t2: "t2 = (h2, u2, k2')" by (cases t2)
    from Cons.prems h t1 t2
    have "map (\<lambda>(n, h, u). (n, h, 0::nat)) (rows1 @ [(res_name r, h1, u1)]) =
          map (\<lambda>(n, h, u). (n, h, 0::nat)) (rows2 @ [(res_name r, h2, u2)])" by simp
    then have "map_sum id (map (\<lambda>(n, h, u). (n, h, 0::nat)))
                 (report_resources d now1 start end' rs (rows1 @ [(res_name r, h1, u1)]) k1') =
               map_sum id (map (\<lambda>(n, h, u). (n, h, 0::nat)))
                 (report_resources d now2 start end' rs (rows2 @ [(res_name r, h2, u2)]) k2')"
      by (rule Cons.IH)
    moreover from Inr t1 have "report_resources d now1 start end' (r # rs) rows1 k1 =
        report_resources d now1 start end' rs (rows1 @ [(res_name r, h1, u1)]) k1'" by simp
    moreover from r2 t2 have "report_resources d now2 start end' (r # rs) rows2 k2 =
        report_resources d now2 start end' rs (rows2 @ [(res_name r, h2, u2)]) k2'" by simp
    ultimately show ?thesis by (simp only:)
  qed
qed

lemma report_resources_same_side:
  assumes "same_side d now1 now2"
  shows "report_resources d now1 start end' rs rows k1 =
         report_resources d now2 start end' rs rows k2"
proof (induction rs arbitrary: rows k1 k2)
  case Nil
  then show ?case by simp
next
  case (Cons r rs)
  let ?als = "find_resource_id (allocations_col d) (res_id r)"
  let ?r1 = "report_allocations (events_col d) now1 start end' ?als 0 0 k1"
  let ?r2 = "report_allocations (events_col d) now2 start end' ?als 0 0 k2"
  from assms have eq:
    "map_sum id (\<lambda>(h, u, k). (h, u)) ?r1 = map_sum id (\<lambda>(h, u, k). (h, u)) ?r2"
    unfolding same_side_def by (rule report_allocations_same_side)
  show ?case
  proof (cases ?r1)
    case (Inl err)
    with eq have "?r2 = Inl err" by (cases ?r2) auto
    with Inl show ?thesis by simp
  next
    case (Inr t1)
    obtain h1 u1 k1' where t1: "t1 = (h1, u1, k1')" by (cases t1)
    from Inr t1 eq obtain k2' where r2: "?r2 = Inr (h1, u1, k2')" by (cases ?r2) auto
    have "report_resources d now1 start end' rs (rows @ [(res_name r, h1, u1)]) k1' =
          report_resources d now2 start end' rs (rows @ [(res_name r, h1, u1)]) k2'"
      by (rule Cons.IH)
    with Inr t1 r2 show ?thesis by simp
  qed
qed

lemma room_fields: "resources_col db1 = [room]" "res_id room = 10" "res_name room = ''room''"
  by (simp_all add: example_defs)

lemma seconds_standup: "seconds (hhmm 11 0 - hhmm 10 0) = 3600"
  by (simp add: seconds_def hhmm_def)

lemma report_allocations_db1_dawn:
  "report_allocations (events_col db1) dawn (hhmm 0 0) (hhmm 23 59)
     (find_resource_id (allocations_col db1) 10) 0 0 0 = Inr (1, 1, 1)"
  by (simp add: find_resource_id_def find_one_id_def db1_def db0_def standup_def review_def
      huddle_def dawn_def seconds_standup) (simp add: hhmm_def)

lemma report_allocations_db1_morning:
  "report_allocations (events_col db1) morning (hhmm 0 0) (hhmm 23 59)
     (find_resource_id (allocations_col db1) 10) 0 0 0 = Inr (1, 1, 1)"
  by (simp add: find_resource_id_def find_one_id_def db1_def db0_def standup_def review_def
      huddle_def morning_def seconds_standup) (simp add: hhmm_def)

lemma report_allocations_db1_noon:
  "report_allocations (events_col db1) noon (hhmm 0 0) (hhmm 23 59)
     (find_resource_id (allocations_col db1) 10) 0 0 0 = Inr (1, 0, 1)"
  by (simp add: find_resource_id_def find_one_id_def db1_def db0_def standup_def review_def
      huddle_def noon_def seconds_standup) (simp add: hhmm_def)

text \<open>
  The same store and the same window, read at 9:00 and at 12:00: the standup at 10:00
  is upcoming in the first report and not in the second.
\<close>

theorem report_clock_counterexample:
  "report alice morning (POST (hhmm 0 0, hhmm 23 59)) db1 =
     (db1, Inr (Render_report [(''room'', 1, 1)])) \<and>
   report alice noon (POST (hhmm 0 0, hhmm 23 59)) db1 =
     (db1, Inr (Render_report [(''room'', 1, 0)]))"
  using report_allocations_db1_morning report_allocations_db1_noon room_fields
  by (simp add: report_def report_view_def login_required_def alice_def)

text \<open>
  Claim C7, amended. \<open>report\<close> never changes the store. Two reports over the same store
  and window show the same resources with the same booked hours, whatever the clock
  reads; they are the same in the upcoming counts too when the readings of the two
  clocks are on the same side of the start of every stored event.
\<close>

theorem report_pure:
  "fst (report sess now req d) = d \<and>
   without_upcoming (snd (report sess now1 req d)) =
     without_upcoming (snd (report sess now2 req d)) \<and>
   (same_side d now1 now2 \<longrightarrow> report sess now1 req d = report sess now2 req d)"
proof (intro conjI impI)
  show "fst (report sess now req d) = d"
    by (auto simp: report_def report_view_def login_required_def
        split: request.splits sum.splits)
next
  show "without_upcoming (snd (report sess now1 req d)) =
        without_upcoming (snd (report sess now2 req d))"
  proof (cases req)
    case GET
    then show ?thesis by (simp add: report_def report_view_def login_required_def)
  next
    case (POST f)
    obtain s e where f: "f = (s, e)" by (cases f)
    let ?r1 = "report_resources d now1 s e (resources_col d) [] 0"
    let ?r2 = "report_resources d now2 s e (resources_col d) [] 0"
    have eq: "map_sum id (map (\<lambda>(n, h, u). (n, h, 0::nat))) ?r1 =
              map_sum id (map (\<lambda>(n, h, u). (n, h, 0::nat))) ?r2"
      by (rule report_resources_hours) simp
    have "without_upcoming (snd (report_view now1 req d)) =
          without_upcoming (snd (report_view now2 req d))"
    proof (cases ?r1)
      case (Inl err)
      with eq have "?r2 = Inl err" by (cases ?r2) auto
      with Inl POST f show ?thesis by (simp add: report_view_def)
    next
      case (Inr rows1)
      with eq obtain rows2 where r2: "?r2 = Inr rows2"
        and m: "map (\<lambda>(n, h, u). (n, h, 0::nat)) rows1 =
                map (\<lambda>(n, h, u). (n, h, 0::nat)) rows2"
        by (cases ?r2) auto
      from m Inr r2 POST f show ?thesis
        by (simp add: report_view_def without_upcoming_def)
    qed
    then show ?thesis by (simp add: report_def login_required_def)
  qed
next
  assume ss: "same_side d now1 now2"
  show "report sess now1 req d = report sess now2 req d"
  proof (cases req)
    case GET
    then show ?thesis by (simp add: report_def report_view_def login_required_def)
  next
    case (POST f)
    obtain s e where f: "f = (s, e)" by (cases f)
    from ss have "report_resources d now1 s e (resources_col d) [] 0 =
                  report_resources d now2 s e (resources_col d) [] 0"
      by (rule report_resources_same_side)
    with POST f show ?thesis by (simp add: report_def report_view_def login_required_def)
  qed
qed

theorem report_pure_witness:
  "same_side db1 dawn morning \<and>
   fst (report alice dawn (POST (hhmm 0 0, hhmm 23 59)) db1) = db1 \<and>
   report alice dawn (POST (hhmm 0 0, hhmm 23 59)) db1 =
     report alice morning (POST (hhmm 0 0, hhmm 23 59)) db1 \<and>
   report alice dawn (POST (hhmm 0 0, hhmm 23 59)) db1 =
     (db1, Inr (Render_report [(''room'', 1, 1)])) \<and>
   without_upcoming (snd (report alice dawn (POST (hhmm 0 0, hhmm 23 59)) db1)) =
     without_upcoming (snd (report alice noon (POST (hhmm 0 0, hhmm 23 59)) db1))"
proof -
  have ss: "same_side db1 dawn morning"
    by (simp add: same_side_def dawn_def morning_def example_defs)
  have val: "report alice dawn (POST (hhmm 0 0, hhmm 23 59)) db1 =
      (db1, Inr (Render_report [(''room'', 1, 1)]))"
    using report_allocations_db1_dawn room_fields
    by (simp add: report_def report_view_def login_required_def alice_def)
  note pure = report_pure [of alice dawn "POST (hhmm 0 0, hhmm 23 59)" db1 dawn morning]
  from pure have 1: "fst (report alice dawn (POST (hhmm 0 0, hhmm 23 59)) db1) = db1"
    by (rule conjunct1)
  from pure ss have 2: "report alice dawn (POST (hhmm 0 0, hhmm 23 59)) db1 =
      report alice morning (POST (hhmm 0 0, hhmm 23 59)) db1" by blast
  from report_pure [of alice dawn "POST (hhmm 0 0, hhmm 23 59)" db1 dawn noon]
  have 3: "without_upcoming (snd (report alice dawn (POST (hhmm 0 0, hhmm 23 59)) db1)) =
     without_upcoming (snd (report alice noon (POST (hhmm 0 0, hhmm 23 59)) db1))" by blast
  from ss 1 2 val 3 show ?thesis by blast
qed

section \<open>Booked hours\<close>

text \<open>
  For a duration of whole seconds that is shorter than a day, the \<open>seconds\<close> attribute
  is the whole duration, and the hours the report adds are the event's hours.
\<close>

lemma seconds_short_duration:
  assumes "0 \<le> td" and "td < 86400 * 1000000" and "td mod 1000000 = 0"
  shows "(of_int (seconds td) :: rat) / 3600 = total_seconds td / 3600"
proof -
  from assms(1,2) have "0 \<le> td div 1000000" "td div 1000000 < 86400"
    by simp_all
  then have "seconds td = td div 1000000"
    by (simp add: seconds_def)
  moreover from assms(3) have "td = (td div 1000000) * 1000000"
    by (simp add: mod_eq_0_iff_dvd)
  then have "(of_int td :: rat) = of_int (td div 1000000) * 1000000"
    by (metis of_int_mult of_int_numeral)
  ultimately show ?thesis
    by (simp add: total_seconds_def)
qed

lemma seconds_workshop: "seconds (hhmm 10 30 - hhmm 9 0) = 5400"
  by (simp add: seconds_def hhmm_def)

lemma seconds_demo: "seconds (hhmm 15 0 - hhmm 14 0) = 3600"
  by (simp add: seconds_def hhmm_def)

lemma seconds_offsite: "seconds (hhmm 25 0 - hhmm 0 0) = 3600"
  by (simp add: seconds_def hhmm_def)

lemma report_allocations_db5_morning_window:
  "report_allocations (events_col db5) noon (hhmm 8 0) (hhmm 12 0)
     (find_resource_id (allocations_col db5) 10) 0 0 0 = Inr (3 / 2, 1, 2)"
  by (simp add: find_resource_id_def find_one_id_def db5_def workshop_def demo_def noon_def
      seconds_workshop seconds_demo) (simp add: hhmm_def)

lemma report_allocations_db5_whole_day:
  "report_allocations (events_col db5) noon (hhmm 0 0) (hhmm 23 59)
     (find_resource_id (allocations_col db5) 10) 0 0 0 = Inr (5 / 2, 1, 2)"
  by (simp add: find_resource_id_def find_one_id_def db5_def workshop_def demo_def noon_def
      seconds_workshop seconds_demo) (simp add: hhmm_def)

text \<open>
  The two reports of the specification's example: 1.5 hours in the window from 8:00 to
  12:00, 2.5 hours in the window from 0:00 to 23:59.
\<close>

lemma report_db5:
  "report alice noon (POST (hhmm 8 0, hhmm 12 0)) db5 =
     (db5, Inr (Render_report [(''room'', 3 / 2, 1)])) \<and>
   report alice noon (POST (hhmm 0 0, hhmm 23 59)) db5 =
     (db5, Inr (Render_report [(''room'', 5 / 2, 1)]))"
proof -
  have "resources_col db5 = [room]" "res_id room = 10" "res_name room = ''room''"
    by (simp_all add: db5_def room_def)
  with report_allocations_db5_morning_window report_allocations_db5_whole_day
  show ?thesis
    by (simp add: report_def report_view_def login_required_def alice_def)
qed

lemma report_allocations_db4:
  "report_allocations (events_col db4) noon (hhmm 0 0) (hhmm 48 0)
     (find_resource_id (allocations_col db4) 10) 0 0 0 = Inr (1, 0, 1)"
  by (simp add: find_resource_id_def find_one_id_def db4_def offsite_def noon_def
      seconds_offsite) (simp add: hhmm_def)

text \<open>
  Claim C4. The room of \<open>db4\<close> is held by one event, from 0:00 to 1:00 of the next day:
  25 hours, inside the window from 0:00 to 48:00. The report shows 1 booked hour: the
  \<open>seconds\<close> attribute leaves the day of the duration out.
\<close>

theorem report_day_long_event:
  "report alice noon (POST (hhmm 0 0, hhmm 48 0)) db4 =
     (db4, Inr (Render_report [(''room'', 1, 0)])) \<and>
   total_seconds (ev_end offsite - ev_start offsite) / 3600 = 25"
proof -
  have "resources_col db4 = [room]" "res_id room = 10" "res_name room = ''room''"
    by (simp_all add: db4_def room_def)
  with report_allocations_db4
  have "report alice noon (POST (hhmm 0 0, hhmm 48 0)) db4 =
     (db4, Inr (Render_report [(''room'', 1, 0)]))"
    by (simp add: report_def report_view_def login_required_def alice_def)
  moreover have "total_seconds (ev_end offsite - ev_start offsite) / 3600 = 25"
    by (simp add: total_seconds_def offsite_def hhmm_def)
  ultimately show ?thesis by simp
qed

end
